theory Spec2Isabelle
  imports Main
begin

section \<open>Data model of the background script\<close>

text \<open>
  A browser tab as the script reads it: \<open>tab.id\<close>, \<open>tab.active\<close>, \<open>tab.pinned\<close>,
  \<open>tab.audible\<close>, \<open>tab.discarded\<close> and the optional \<open>tab.url\<close>. The title is only
  ever interpolated into console text and is left out.
\<close>

record tab =
  tab_id :: int
  active :: bool
  pinned :: bool
  audible :: bool
  discarded :: bool
  url :: "string option"

text \<open>
  The global \<open>settings\<close> object (\<open>DEFAULT_SETTINGS\<close> merged with the stored one).
  The numbers of the script (the timestamps of \<open>Date.now()\<close>, the settings, the count)
  are integers, held as \<open>int\<close>; its arithmetic on them is that of doubles, below.
\<close>

record settings =
  enabled :: bool
  inactiveTimeout :: int
  checkInterval :: int
  excludePinned :: bool
  excludeAudible :: bool
  minTabs :: int

section \<open>JavaScript numbers\<close>

text \<open>
  A JavaScript number is an IEEE 754 double. The script only adds, subtracts and multiplies
  integers, and the double nearest to an integer is again an integer, so a number is held
  as the \<open>int\<close> it denotes and every operation rounds its exact result to the nearest
  integer with a 53-bit significand, ties to the even significand. \<open>excess_bits m\<close> is
  the number of low bits of \<open>m\<close> that such a significand cannot hold. Only finite doubles
  are modelled: a magnitude of \<open>2^1024\<close> or more, where a double is \<open>Infinity\<close>, and
  \<open>NaN\<close> are left out. Array lengths and the running count stay far below \<open>2^53\<close>, where
  the arithmetic is exact, and are computed on \<open>int\<close> directly.
\<close>

fun excess_bits :: "nat \<Rightarrow> nat" where
  "excess_bits m = (if m < 9007199254740992 then 0 else Suc (excess_bits (m div 2)))"

definition round53 :: "nat \<Rightarrow> nat" where
  "round53 m =
     (let e = excess_bits m; q = m div 2 ^ e; r = m mod 2 ^ e
      in if 2 * r < 2 ^ e \<or> (2 * r = 2 ^ e \<and> even q) then q * 2 ^ e else (q + 1) * 2 ^ e)"

definition dbl :: "int \<Rightarrow> int" where
  "dbl x = (if x < 0 then - int (round53 (nat (- x))) else int (round53 (nat x)))"

definition js_add :: "int \<Rightarrow> int \<Rightarrow> int" where
  "js_add a b = dbl (a + b)"

definition js_sub :: "int \<Rightarrow> int \<Rightarrow> int" where
  "js_sub a b = dbl (a - b)"

definition js_mul :: "int \<Rightarrow> int \<Rightarrow> int" where
  "js_mul a b = dbl (a * b)"

definition DEFAULT_SETTINGS :: settings where
  "DEFAULT_SETTINGS =
     \<lparr>enabled = True, inactiveTimeout = 30, checkInterval = 5,
      excludePinned = False, excludeAudible = True, minTabs = 1\<rparr>"

text \<open>
  Console lines, one constructor per message of the source; the payload is the tab id
  and the settings or counts printed, not the formatted text (the rounded seconds of the
  "inactive" line are part of that text).
\<close>

datatype message =
    Msg_Tracking int bool
  | Msg_Checking nat nat nat
  | Msg_SkipPinned int
  | Msg_SkipAudible int
  | Msg_StartedTracking int
  | Msg_Inactive int int
  | Msg_KeepingMinimum int
  | Msg_Discarded int
  | Msg_FailedDiscard int
  | Msg_ForceDiscarding
  | Msg_ForceDiscarded int
  | Msg_ForceFailed

text \<open>
  Everything the script does to its environment, in order: the enumeration query
  \<open>browser.tabs.query({})\<close>, each call of \<open>browser.tabs.discard(id)\<close> with its outcome
  (\<open>True\<close>: the promise resolved, \<open>False\<close>: it rejected), and the console output.
\<close>

datatype event =
    TabsQuery
  | TabsDiscard int bool
  | ConsoleLog message
  | ConsoleError message

text \<open>
  The host browser, over an arbitrary host state \<open>'h\<close>: what the query returns, what a
  discard call answers and how it changes the host, and the clock read by \<open>Date.now()\<close>.
  The query is taken to resolve; a discard call may resolve or reject.
\<close>

record 'h browser =
  tabs_query :: "'h \<Rightarrow> tab list"
  tabs_discard :: "'h \<Rightarrow> int \<Rightarrow> bool \<times> 'h"
  date_now :: "'h \<Rightarrow> int"

text \<open>
  The state the script runs in: the global map \<open>tabLastActive\<close>, the host, and the
  trace of effects so far.
\<close>

record 'h world =
  tabLastActive :: "int \<rightharpoonup> int"
  host :: 'h
  trace :: "event list"

definition emit :: "event list \<Rightarrow> 'h world \<Rightarrow> 'h world" where
  "emit evs w = w\<lparr>trace := trace w @ evs\<rparr>"

text \<open>Reading a trace: the discard calls made, and the part of a trace added by a run.\<close>

fun discard_calls :: "event list \<Rightarrow> (int \<times> bool) list" where
  "discard_calls [] = []"
| "discard_calls (TabsDiscard i ok # evs) = (i, ok) # discard_calls evs"
| "discard_calls (e # evs) = discard_calls evs"

definition attempted :: "event list \<Rightarrow> int list" where
  "attempted evs = map fst (discard_calls evs)"

definition succeeded :: "event list \<Rightarrow> int" where
  "succeeded evs = int (length (filter snd (discard_calls evs)))"

definition events_since :: "'h world \<Rightarrow> 'h world \<Rightarrow> event list" where
  "events_since w w' = drop (length (trace w)) (trace w')"

section \<open>Activity tracker\<close>

text \<open>
  \<open>initializeTabTracking\<close>: both branches of the source store the current time.
\<close>

fun initialize_loop :: "int \<Rightarrow> tab list \<Rightarrow> 'h world \<Rightarrow> 'h world" where
  "initialize_loop now [] w = w"
| "initialize_loop now (t # ts) w =
     initialize_loop now ts
       (emit [ConsoleLog (Msg_Tracking (tab_id t) (active t))]
          (if active t
           then w\<lparr>tabLastActive := (tabLastActive w)(tab_id t \<mapsto> now)\<rparr>
           else w\<lparr>tabLastActive := (tabLastActive w)(tab_id t \<mapsto> now)\<rparr>))"

definition initializeTabTracking :: "'h browser \<Rightarrow> 'h world \<Rightarrow> 'h world" where
  "initializeTabTracking B w =
     (let tabs = tabs_query B (host w);
          w0 = emit [TabsQuery] w;
          now = date_now B (host w)
      in initialize_loop now tabs w0)"

section \<open>Exclusion policy\<close>

text \<open>\<open>s.startsWith(p)\<close> on strings, and \<open>u?.startsWith(p)\<close> on an optional one.\<close>

definition startsWith :: "string \<Rightarrow> string \<Rightarrow> bool" where
  "startsWith s p = (take (length p) s = p)"

definition opt_startsWith :: "string option \<Rightarrow> string \<Rightarrow> bool" where
  "opt_startsWith u p = (case u of None \<Rightarrow> False | Some s \<Rightarrow> startsWith s p)"

text \<open>\<open>shouldExclude(tab)\<close>, reading the global settings.\<close>

definition shouldExclude :: "settings \<Rightarrow> tab \<Rightarrow> bool" where
  "shouldExclude s t =
     (if active t then True
      else if discarded t then True
      else if excludePinned s \<and> pinned t then True
      else if excludeAudible s \<and> audible t then True
      else if opt_startsWith (url t) ''about:'' \<or>
              opt_startsWith (url t) ''moz-extension:'' \<or>
              opt_startsWith (url t) ''chrome:'' then True
      else False)"

section \<open>Scheduled scan\<close>

text \<open>
  The head of the loop body of \<open>checkAndDiscardInactiveTabs\<close>, with its own copy of
  the checks: \<open>Some evs\<close> when the tab is skipped by \<open>continue\<close> (\<open>evs\<close> is what was
  logged on the way), \<open>None\<close> when the tab gets past them.
\<close>

definition scan_skip :: "settings \<Rightarrow> tab \<Rightarrow> event list option" where
  "scan_skip s t =
     (if active t then Some []
      else if discarded t then Some []
      else if excludePinned s \<and> pinned t then Some [ConsoleLog (Msg_SkipPinned (tab_id t))]
      else if excludeAudible s \<and> audible t then Some [ConsoleLog (Msg_SkipAudible (tab_id t))]
      else if opt_startsWith (url t) ''about:'' \<or>
              opt_startsWith (url t) ''moz-extension:'' \<or>
              opt_startsWith (url t) ''chrome:'' then Some []
      else None)"

text \<open>
  \<open>!lastActive\<close> on the result of \<open>tabLastActive.get(tab.id)\<close>: true for \<open>undefined\<close>
  and for the number 0. \<open>resolve_lastActive\<close> is the value of the variable
  \<open>lastActive\<close> after the \<open>if\<close>.
\<close>

definition untracked :: "int option \<Rightarrow> bool" where
  "untracked v = (case v of None \<Rightarrow> True | Some x \<Rightarrow> x = 0)"

definition resolve_lastActive :: "int \<Rightarrow> int \<Rightarrow> int option \<Rightarrow> int" where
  "resolve_lastActive now timeoutMs v =
     (case v of
        None \<Rightarrow> js_sub now (js_add timeoutMs 1000)
      | Some x \<Rightarrow> if x = 0 then js_sub now (js_add timeoutMs 1000) else x)"

datatype control = Continue | Break

text \<open>
  One iteration of the loop on tab \<open>t\<close>, from the running count and the world.
\<close>

definition scan_iter ::
  "'h browser \<Rightarrow> settings \<Rightarrow> int \<Rightarrow> int \<Rightarrow> nat \<Rightarrow> tab \<Rightarrow> int \<times> 'h world
     \<Rightarrow> control \<times> int \<times> 'h world" where
  "scan_iter B s now timeoutMs nActive t st =
     (case st of (discardedCount, w) \<Rightarrow>
        (case scan_skip s t of
           Some evs \<Rightarrow> (Continue, discardedCount, emit evs w)
         | None \<Rightarrow>
             (let stored = tabLastActive w (tab_id t);
                  lastActive = resolve_lastActive now timeoutMs stored;
                  w1 = (if untracked stored
                        then emit [ConsoleLog (Msg_StartedTracking (tab_id t))]
                               (w\<lparr>tabLastActive := (tabLastActive w)(tab_id t \<mapsto> lastActive)\<rparr>)
                        else w);
                  inactiveFor = js_sub now lastActive;
                  w2 = emit [ConsoleLog (Msg_Inactive (tab_id t) (inactiveTimeout s))] w1
              in if inactiveFor > timeoutMs
                 then (if int nActive - discardedCount \<le> minTabs s
                       then (Break, discardedCount,
                             emit [ConsoleLog (Msg_KeepingMinimum (minTabs s))] w2)
                       else (let (ok, h') = tabs_discard B (host w2) (tab_id t)
                             in if ok
                                then (Continue, discardedCount + 1,
                                      emit [TabsDiscard (tab_id t) True,
                                            ConsoleLog (Msg_Discarded (tab_id t))]
                                        (w2\<lparr>host := h'\<rparr>))
                                else (Continue, discardedCount,
                                      emit [TabsDiscard (tab_id t) False,
                                            ConsoleError (Msg_FailedDiscard (tab_id t))]
                                        (w2\<lparr>host := h'\<rparr>))))
                 else (Continue, discardedCount, w2))))"

fun scan_loop ::
  "'h browser \<Rightarrow> settings \<Rightarrow> int \<Rightarrow> int \<Rightarrow> nat \<Rightarrow> tab list \<Rightarrow> int \<times> 'h world
     \<Rightarrow> int \<times> 'h world" where
  "scan_loop B s now timeoutMs nActive [] st = st"
| "scan_loop B s now timeoutMs nActive (t # ts) st =
     (case scan_iter B s now timeoutMs nActive t st of
        (Break, st') \<Rightarrow> st'
      | (Continue, st') \<Rightarrow> scan_loop B s now timeoutMs nActive ts st')"

definition checkAndDiscardInactiveTabs ::
  "'h browser \<Rightarrow> settings \<Rightarrow> 'h world \<Rightarrow> int \<times> 'h world" where
  "checkAndDiscardInactiveTabs B s w =
     (if \<not> enabled s then (0, w)
      else
        (let tabs = tabs_query B (host w);
             w0 = emit [TabsQuery] w;
             now = date_now B (host w);
             timeoutMs = js_mul (inactiveTimeout s) 1000;
             activeTabs = filter (\<lambda>t. \<not> discarded t) tabs;
             alreadyDiscarded = length (filter (\<lambda>t. discarded t) tabs);
             activeTabCount = length (filter (\<lambda>t. active t) tabs);
             w1 = emit [ConsoleLog (Msg_Checking (length tabs) alreadyDiscarded activeTabCount)] w0
         in scan_loop B s now timeoutMs (length activeTabs) tabs (0, w1)))"



section \<open>Manual trigger\<close>

fun force_loop ::
  "'h browser \<Rightarrow> settings \<Rightarrow> tab list \<Rightarrow> int \<times> 'h world \<Rightarrow> int \<times> 'h world" where
  "force_loop B s [] st = st"
| "force_loop B s (t # ts) (discardedCount, w) =
     (if shouldExclude s t then force_loop B s ts (discardedCount, w)
      else (let (ok, h') = tabs_discard B (host w) (tab_id t)
            in if ok
               then force_loop B s ts
                      (discardedCount + 1,
                       emit [TabsDiscard (tab_id t) True,
                             ConsoleLog (Msg_ForceDiscarded (tab_id t))] (w\<lparr>host := h'\<rparr>))
               else force_loop B s ts
                      (discardedCount,
                       emit [TabsDiscard (tab_id t) False,
                             ConsoleError Msg_ForceFailed] (w\<lparr>host := h'\<rparr>))))"

definition forceDiscardInactiveTabs ::
  "'h browser \<Rightarrow> settings \<Rightarrow> 'h world \<Rightarrow> int \<times> 'h world" where
  "forceDiscardInactiveTabs B s w =
     (let tabs = tabs_query B (host w);
          w0 = emit [TabsQuery] w;
          w1 = emit [ConsoleLog Msg_ForceDiscarding] w0
      in force_loop B s tabs (0, w1))"

section \<open>Concrete hosts and tabs used to exercise the theorems\<close>

definition mk_tab :: "int \<Rightarrow> bool \<Rightarrow> bool \<Rightarrow> tab" where
  "mk_tab i a p =
     \<lparr>tab_id = i, active = a, pinned = p, audible = False, discarded = False,
      url = Some ''https://example.org/''\<rparr>"

text \<open>A host that lists the given tabs, reads the given clock and accepts every discard.\<close>

definition ok_browser :: "tab list \<Rightarrow> int \<Rightarrow> unit browser" where
  "ok_browser tabs now =
     \<lparr>tabs_query = (\<lambda>_. tabs), tabs_discard = (\<lambda>h _. (True, h)), date_now = (\<lambda>_. now)\<rparr>"

text \<open>A host that rejects the discard of tab 2 and accepts every other.\<close>

definition flaky_browser :: "tab list \<Rightarrow> int \<Rightarrow> unit browser" where
  "flaky_browser tabs now =
     \<lparr>tabs_query = (\<lambda>_. tabs), tabs_discard = (\<lambda>h i. (i \<noteq> 2, h)), date_now = (\<lambda>_. now)\<rparr>"

definition world0 :: "(int \<rightharpoonup> int) \<Rightarrow> unit world" where
  "world0 m = \<lparr>tabLastActive = m, host = (), trace = []\<rparr>"

section \<open>Rounding\<close>

declare excess_bits.simps [simp del]

lemma excess_bits_small: "m < 9007199254740992 \<Longrightarrow> excess_bits m = 0"
  by (subst excess_bits.simps) simp

lemma round53_exact: "m < 9007199254740992 \<Longrightarrow> round53 m = m"
  by (simp add: round53_def excess_bits_small)

lemma dbl_exact: "\<bar>x\<bar> < 9007199254740992 \<Longrightarrow> dbl x = x"
  by (simp add: dbl_def round53_exact)

lemma dbl_nonneg: "0 \<le> x \<Longrightarrow> 0 \<le> dbl x"
  by (simp add: dbl_def)

lemma js_sub_self: "js_sub a a = 0"
  by (simp add: js_sub_def dbl_exact)

section \<open>Reading traces\<close>

lemma discard_calls_append:
  "discard_calls (xs @ ys) = discard_calls xs @ discard_calls ys"
  by (induction xs rule: discard_calls.induct) simp_all

lemma succeeded_append: "succeeded (xs @ ys) = succeeded xs + succeeded ys"
  by (simp add: succeeded_def discard_calls_append)

lemma attempted_append: "attempted (xs @ ys) = attempted xs @ attempted ys"
  by (simp add: attempted_def discard_calls_append)

lemma events_since_append: "trace w' = trace w @ evs \<Longrightarrow> events_since w w' = evs"
  by (simp add: events_since_def)

lemma scan_skip_no_discard:
  "scan_skip s t = Some evs \<Longrightarrow> discard_calls evs = []"
  by (auto simp: scan_skip_def split: if_splits)

text \<open>What one iteration adds: a trace extension whose successful discards are the count's increase.\<close>

lemma scan_iter_effect:
  assumes "scan_iter B s now tm n t (c, w) = (ctl, c', w')"
  shows "\<exists>evs. trace w' = trace w @ evs \<and> c' = c + succeeded evs"
  using assms
  by (auto simp: scan_iter_def emit_def Let_def succeeded_def discard_calls_append
      dest: scan_skip_no_discard
      split: option.splits if_splits prod.splits)

lemma scan_loop_effect:
  "scan_loop B s now tm n ts (c, w) = (c', w') \<Longrightarrow>
   \<exists>evs. trace w' = trace w @ evs \<and> c' = c + succeeded evs"
proof (induction ts arbitrary: c w)
  case Nil
  then show ?case by (simp add: succeeded_def)
next
  case (Cons t ts)
  obtain ctl c1 w1 where it: "scan_iter B s now tm n t (c, w) = (ctl, c1, w1)"
    by (metis prod_cases3)
  from scan_iter_effect[OF it] obtain e1 where
    e1: "trace w1 = trace w @ e1" "c1 = c + succeeded e1" by blast
  show ?case
  proof (cases ctl)
    case Break
    with Cons.prems it have "c' = c1" "w' = w1" by simp_all
    with e1 show ?thesis by blast
  next
    case Continue
    with Cons.prems it have "scan_loop B s now tm n ts (c1, w1) = (c', w')" by simp
    from Cons.IH[OF this] obtain e2 where
      "trace w' = trace w1 @ e2" "c' = c1 + succeeded e2" by blast
    with e1 have "trace w' = trace w @ (e1 @ e2)" "c' = c + succeeded (e1 @ e2)"
      by (simp_all add: succeeded_append)
    then show ?thesis by blast
  qed
qed

section \<open>One iteration of the scan\<close>

lemma resolve_untracked:
  "untracked v \<Longrightarrow> resolve_lastActive now tm v = js_sub now (js_add tm 1000)"
  by (auto simp: untracked_def resolve_lastActive_def split: option.splits)

lemma resolve_synth:
  "resolve_lastActive now tm (Some (js_sub now (js_add tm 1000))) = js_sub now (js_add tm 1000)"
  by (simp add: resolve_lastActive_def)

text \<open>A tab past the checks and past the timeout, with the floor not reached: one discard call.\<close>

lemma scan_iter_candidate:
  assumes "scan_skip s t = None"
    and "tm < js_sub now (resolve_lastActive now tm (tabLastActive w (tab_id t)))"
    and "\<not> int n - c \<le> minTabs s"
    and "scan_iter B s now tm n t (c, w) = (ctl, c', w')"
  shows "ctl = Continue"
    and "c' = c + (if fst (tabs_discard B (host w) (tab_id t)) then 1 else 0)"
    and "host w' = snd (tabs_discard B (host w) (tab_id t))"
    and "discard_calls (events_since w w') = [(tab_id t, fst (tabs_discard B (host w) (tab_id t)))]"
    and "tabLastActive w' =
           (if untracked (tabLastActive w (tab_id t))
            then (tabLastActive w)(tab_id t \<mapsto> js_sub now (js_add tm 1000)) else tabLastActive w)"
  using assms
  by (auto simp: scan_iter_def emit_def Let_def events_since_def resolve_untracked
      split: if_splits prod.splits)

lemma scan_iter_floor:
  assumes "scan_skip s t = None"
    and "tm < js_sub now (resolve_lastActive now tm (tabLastActive w (tab_id t)))"
    and "int n - c \<le> minTabs s"
    and "scan_iter B s now tm n t (c, w) = (ctl, c', w')"
  shows "ctl = Break" and "c' = c" and "host w' = host w"
    and "discard_calls (events_since w w') = []"
  using assms
  by (auto simp: scan_iter_def emit_def Let_def events_since_def
      split: if_splits prod.splits)

lemma scan_iter_fresh:
  assumes "scan_skip s t = None"
    and "\<not> tm < js_sub now (resolve_lastActive now tm (tabLastActive w (tab_id t)))"
    and "scan_iter B s now tm n t (c, w) = (ctl, c', w')"
  shows "ctl = Continue" and "c' = c" and "host w' = host w"
    and "discard_calls (events_since w w') = []"
  using assms
  by (auto simp: scan_iter_def emit_def Let_def events_since_def
      split: if_splits prod.splits)

lemma scan_iter_skipped:
  assumes "scan_skip s t \<noteq> None"
    and "scan_iter B s now tm n t (c, w) = (ctl, c', w')"
  shows "ctl = Continue" and "c' = c" and "host w' = host w"
    and "discard_calls (events_since w w') = []"
    and "tabLastActive w' = tabLastActive w"
  using assms
  by (auto simp: scan_iter_def emit_def events_since_def scan_skip_no_discard)

text \<open>The count stays within the floor's bound.\<close>

lemma scan_iter_bound:
  assumes "scan_iter B s now tm n t (c, w) = (ctl, c', w')"
    and "0 \<le> c" and "c \<le> max 0 (int n - minTabs s)"
  shows "0 \<le> c' \<and> c' \<le> max 0 (int n - minTabs s)"
  using assms
  by (auto simp: scan_iter_def Let_def split: option.splits if_splits prod.splits)

lemma scan_loop_bound:
  "scan_loop B s now tm n ts (c, w) = (c', w') \<Longrightarrow> 0 \<le> c \<Longrightarrow>
   c \<le> max 0 (int n - minTabs s) \<Longrightarrow> 0 \<le> c' \<and> c' \<le> max 0 (int n - minTabs s)"
proof (induction ts arbitrary: c w)
  case Nil
  then show ?case by simp
next
  case (Cons t ts)
  obtain ctl c1 w1 where it: "scan_iter B s now tm n t (c, w) = (ctl, c1, w1)"
    by (metis prod_cases3)
  from scan_iter_bound[OF it Cons.prems(2,3)]
  have b: "0 \<le> c1" "c1 \<le> max 0 (int n - minTabs s)" by simp_all
  show ?case
  proof (cases ctl)
    case Break
    with Cons.prems(1) it b show ?thesis by simp
  next
    case Continue
    with Cons.prems(1) it have "scan_loop B s now tm n ts (c1, w1) = (c', w')" by simp
    from Cons.IH[OF this b] show ?thesis .
  qed
qed

lemma calls_split:
  "trace w' = trace w @ evs \<Longrightarrow>
   discard_calls (trace w') = discard_calls (trace w) @ discard_calls (events_since w w')"
  by (simp add: discard_calls_append events_since_def)

text \<open>The only write of an iteration to the tracker is the synthesized timestamp.\<close>

lemma scan_iter_tracker:
  assumes "scan_iter B s now tm n t (c, w) = (ctl, c', w')"
  shows "tabLastActive w' =
           (if scan_skip s t = None \<and> untracked (tabLastActive w (tab_id t))
            then (tabLastActive w)(tab_id t \<mapsto> js_sub now (js_add tm 1000)) else tabLastActive w)"
  using assms
  by (auto simp: scan_iter_def emit_def Let_def resolve_untracked
      split: option.splits if_splits prod.splits)

lemma scan_iter_keeps_idle:
  assumes "scan_iter B s now tm n t (c, w) = (ctl, c', w')"
    and "tm < js_sub now (resolve_lastActive now tm (tabLastActive w i))"
  shows "tm < js_sub now (resolve_lastActive now tm (tabLastActive w' i))"
  using assms(2) unfolding scan_iter_tracker[OF assms(1)]
  by (auto simp: resolve_synth resolve_untracked)



text \<open>When every discard succeeds and the floor is out of reach, every tab past the checks
  and past the timeout is discarded, in order.\<close>

lemma scan_loop_all_evicted:
  assumes ok: "\<forall>h i. fst (tabs_discard B h i)"
  shows "\<forall>t \<in> set ts. scan_skip s t = None \<longrightarrow>
            tm < js_sub now (resolve_lastActive now tm (tabLastActive w (tab_id t))) \<Longrightarrow>
         minTabs s \<le> int n - c - int (length (filter (\<lambda>t. scan_skip s t = None) ts)) \<Longrightarrow>
         scan_loop B s now tm n ts (c, w) = (c', w') \<Longrightarrow>
         c' = c + int (length (filter (\<lambda>t. scan_skip s t = None) ts)) \<and>
         discard_calls (trace w') =
           discard_calls (trace w) @
           map (\<lambda>t. (tab_id t, True)) (filter (\<lambda>t. scan_skip s t = None) ts)"
proof (induction ts arbitrary: c w)
  case Nil
  then show ?case by simp
next
  case (Cons t ts)
  obtain ctl c1 w1 where it: "scan_iter B s now tm n t (c, w) = (ctl, c1, w1)"
    by (metis prod_cases3)
  from scan_iter_effect[OF it] obtain e1 where e1: "trace w1 = trace w @ e1" by blast
  note cs = calls_split[OF e1]
  have idle1: "\<forall>t' \<in> set ts. scan_skip s t' = None \<longrightarrow>
            tm < js_sub now (resolve_lastActive now tm (tabLastActive w1 (tab_id t')))"
    using Cons.prems(1) scan_iter_keeps_idle[OF it] by simp
  show ?case
  proof (cases "scan_skip s t = None")
    case True
    have idle: "tm < js_sub now (resolve_lastActive now tm (tabLastActive w (tab_id t)))"
      using Cons.prems(1) True by simp
    have nofloor: "\<not> int n - c \<le> minTabs s"
      using Cons.prems(2) True by simp
    note cand = scan_iter_candidate[OF True idle nofloor it]
    have c1: "c1 = c + 1" using cand(2) ok by simp
    have calls1: "discard_calls (trace w1) = discard_calls (trace w) @ [(tab_id t, True)]"
      using cs cand(4) ok by simp
    have fl: "minTabs s \<le> int n - c1 - int (length (filter (\<lambda>t. scan_skip s t = None) ts))"
      using Cons.prems(2) True c1 by simp
    have "scan_loop B s now tm n ts (c1, w1) = (c', w')"
      using Cons.prems(3) it cand(1) by simp
    from Cons.IH[OF idle1 fl this] show ?thesis
      using True c1 calls1 by simp
  next
    case False
    note sk = scan_iter_skipped[OF False it]
    have calls1: "discard_calls (trace w1) = discard_calls (trace w)"
      using cs sk(4) by simp
    have fl: "minTabs s \<le> int n - c1 - int (length (filter (\<lambda>t. scan_skip s t = None) ts))"
      using Cons.prems(2) False sk(2) by simp
    have "scan_loop B s now tm n ts (c1, w1) = (c', w')"
      using Cons.prems(3) it sk(1) by simp
    from Cons.IH[OF idle1 fl this] show ?thesis
      using False sk(2) calls1 by simp
  qed
qed

text \<open>When every listed tab was last active right now, nothing is past a non-negative timeout.\<close>

lemma scan_loop_all_fresh:
  assumes "now \<noteq> 0" and "0 \<le> tm"
  shows "\<forall>t \<in> set ts. tabLastActive w (tab_id t) = Some now \<Longrightarrow>
         scan_loop B s now tm n ts (c, w) = (c', w') \<Longrightarrow>
         c' = c \<and> discard_calls (trace w') = discard_calls (trace w) \<and>
         host w' = host w \<and> tabLastActive w' = tabLastActive w"
proof (induction ts arbitrary: c w)
  case Nil
  then show ?case by simp
next
  case (Cons t ts)
  obtain ctl c1 w1 where it: "scan_iter B s now tm n t (c, w) = (ctl, c1, w1)"
    by (metis prod_cases3)
  from scan_iter_effect[OF it] obtain e1 where e1: "trace w1 = trace w @ e1" by blast
  note cs = calls_split[OF e1]
  have st: "tabLastActive w (tab_id t) = Some now" using Cons.prems(1) by simp
  have nu: "\<not> untracked (tabLastActive w (tab_id t))"
    using st assms(1) by (simp add: untracked_def)
  have tr: "tabLastActive w1 = tabLastActive w"
    using scan_iter_tracker[OF it] nu by simp
  have step: "ctl = Continue \<and> c1 = c \<and> host w1 = host w \<and>
      discard_calls (events_since w w1) = []"
  proof (cases "scan_skip s t = None")
    case True
    have "\<not> tm < js_sub now (resolve_lastActive now tm (tabLastActive w (tab_id t)))"
      using st assms by (simp add: resolve_lastActive_def js_sub_self)
    from scan_iter_fresh[OF True this it] show ?thesis by simp
  next
    case False
    from scan_iter_skipped[OF False it] show ?thesis by simp
  qed
  have "scan_loop B s now tm n ts (c1, w1) = (c', w')"
    using Cons.prems(2) it step by simp
  moreover have "\<forall>t \<in> set ts. tabLastActive w1 (tab_id t) = Some now"
    using Cons.prems(1) tr by simp
  ultimately have "c' = c1 \<and> discard_calls (trace w') = discard_calls (trace w1) \<and>
         host w' = host w1 \<and> tabLastActive w' = tabLastActive w1"
    using Cons.IH by blast
  then show ?case using step cs tr by simp
qed

lemma initialize_loop_host: "host (initialize_loop now ts w) = host w"
  by (induction ts arbitrary: w) (simp_all add: emit_def)

lemma initialize_loop_tracker:
  "tabLastActive (initialize_loop now ts w) i =
     (if i \<in> tab_id ` set ts then Some now else tabLastActive w i)"
  by (induction ts arbitrary: w) (auto simp: emit_def)

lemma scan_iter_failed_logged:
  assumes "scan_skip s t = None"
    and "tm < js_sub now (resolve_lastActive now tm (tabLastActive w (tab_id t)))"
    and "\<not> int n - c \<le> minTabs s"
    and "\<not> fst (tabs_discard B (host w) (tab_id t))"
    and "scan_iter B s now tm n t (c, w) = (ctl, c', w')"
  shows "last (trace w') = ConsoleError (Msg_FailedDiscard (tab_id t))"
  using assms
  by (auto simp: scan_iter_def emit_def Let_def split: if_splits prod.splits)

lemma pinned_excluded: "excludePinned s \<Longrightarrow> pinned t \<Longrightarrow> shouldExclude s t"
  by (simp add: shouldExclude_def)

section \<open>Whole runs\<close>

lemma force_loop_effect:
  "force_loop B s ts (c, w) = (c', w') \<Longrightarrow>
   \<exists>evs. trace w' = trace w @ evs \<and> c' = c + succeeded evs \<and>
         attempted evs = map tab_id (filter (\<lambda>t. \<not> shouldExclude s t) ts)"
proof (induction ts arbitrary: c w)
  case Nil
  then show ?case by (simp add: succeeded_def attempted_def)
next
  case (Cons t ts)
  show ?case
  proof (cases "shouldExclude s t")
    case True
    with Cons.prems have "force_loop B s ts (c, w) = (c', w')" by simp
    from Cons.IH[OF this] True show ?thesis by simp
  next
    case False
    obtain ok h' where d: "tabs_discard B (host w) (tab_id t) = (ok, h')"
      by (cases "tabs_discard B (host w) (tab_id t)")
    define e1 where "e1 = [TabsDiscard (tab_id t) ok,
      if ok then ConsoleLog (Msg_ForceDiscarded (tab_id t)) else ConsoleError Msg_ForceFailed]"
    define c1 where "c1 = (if ok then c + 1 else c)"
    have step: "force_loop B s ts (c1, emit e1 (w\<lparr>host := h'\<rparr>)) = (c', w')"
      using Cons.prems False d by (cases ok) (simp_all add: e1_def c1_def)
    from Cons.IH[OF step] obtain e2 where e2:
      "trace w' = trace (emit e1 (w\<lparr>host := h'\<rparr>)) @ e2" "c' = c1 + succeeded e2"
      "attempted e2 = map tab_id (filter (\<lambda>t. \<not> shouldExclude s t) ts)" by blast
    have "succeeded e1 = (if ok then 1 else 0)" "attempted e1 = [tab_id t]"
      by (simp_all add: e1_def succeeded_def attempted_def)
    with e2 False have "trace w' = trace w @ (e1 @ e2)" "c' = c + succeeded (e1 @ e2)"
      "attempted (e1 @ e2) = map tab_id (filter (\<lambda>t. \<not> shouldExclude s t) (t # ts))"
      by (simp_all add: succeeded_append attempted_append emit_def c1_def)
    then show ?thesis by blast
  qed
qed

lemma forceDiscard_effect:
  assumes "forceDiscardInactiveTabs B s w = (c', w')"
  shows "c' = succeeded (events_since w w')"
    and "attempted (events_since w w') =
           map tab_id (filter (\<lambda>t. \<not> shouldExclude s t) (tabs_query B (host w)))"
proof -
  let ?w1 = "emit [ConsoleLog Msg_ForceDiscarding] (emit [TabsQuery] w)"
  from assms have "force_loop B s (tabs_query B (host w)) (0, ?w1) = (c', w')"
    by (simp add: forceDiscardInactiveTabs_def Let_def)
  from force_loop_effect[OF this] obtain evs where evs:
    "trace w' = trace ?w1 @ evs" "c' = 0 + succeeded evs"
    "attempted evs = map tab_id (filter (\<lambda>t. \<not> shouldExclude s t) (tabs_query B (host ?w1)))"
    by (auto simp: emit_def)
  have tr: "trace w' = trace w @ ([TabsQuery, ConsoleLog Msg_ForceDiscarding] @ evs)"
    using evs(1) by (simp add: emit_def)
  have es: "events_since w w' = [TabsQuery, ConsoleLog Msg_ForceDiscarding] @ evs"
    by (rule events_since_append[OF tr])
  show "c' = succeeded (events_since w w')"
    using evs(2) by (simp add: es succeeded_def)
  show "attempted (events_since w w') =
           map tab_id (filter (\<lambda>t. \<not> shouldExclude s t) (tabs_query B (host w)))"
    using evs(3) by (simp add: es attempted_def emit_def)
qed

lemma checkAndDiscard_effect:
  assumes "checkAndDiscardInactiveTabs B s w = (c', w')"
  shows "c' = succeeded (events_since w w')"
proof (cases "enabled s")
  case False
  with assms show ?thesis
    by (simp add: checkAndDiscardInactiveTabs_def events_since_def succeeded_def)
next
  case True
  let ?tabs = "tabs_query B (host w)"
  let ?e0 = "[TabsQuery, ConsoleLog (Msg_Checking (length ?tabs)
       (length (filter (\<lambda>t. discarded t) ?tabs)) (length (filter (\<lambda>t. active t) ?tabs)))]"
  from assms True have
    "scan_loop B s (date_now B (host w)) (js_mul (inactiveTimeout s) 1000)
       (length (filter (\<lambda>t. \<not> discarded t) ?tabs)) ?tabs (0, emit ?e0 w) = (c', w')"
    by (simp add: checkAndDiscardInactiveTabs_def Let_def emit_def)
  from scan_loop_effect[OF this] obtain evs where
    "trace w' = trace (emit ?e0 w) @ evs" "c' = 0 + succeeded evs" by blast
  then have "trace w' = trace w @ (?e0 @ evs)" "c' = succeeded (?e0 @ evs)"
    by (simp_all add: emit_def succeeded_def)
  then show ?thesis by (simp add: events_since_append)
qed

lemma checkAndDiscard_bound:
  "fst (checkAndDiscardInactiveTabs B s w)
     \<le> max 0 (int (length (filter (\<lambda>t. \<not> discarded t) (tabs_query B (host w)))) - minTabs s)"
proof (cases "enabled s")
  case False
  then show ?thesis by (simp add: checkAndDiscardInactiveTabs_def)
next
  case True
  obtain c' w' where r: "checkAndDiscardInactiveTabs B s w = (c', w')"
    by (cases "checkAndDiscardInactiveTabs B s w")
  with True obtain w1 where
    "scan_loop B s (date_now B (host w)) (js_mul (inactiveTimeout s) 1000)
       (length (filter (\<lambda>t. \<not> discarded t) (tabs_query B (host w))))
       (tabs_query B (host w)) (0, w1) = (c', w')"
    by (simp add: checkAndDiscardInactiveTabs_def Let_def)
  from scan_loop_bound[OF this] r show ?thesis by simp
qed

lemma initializeTabTracking_host: "host (initializeTabTracking B w) = host w"
  by (simp add: initializeTabTracking_def Let_def initialize_loop_host emit_def)

lemma initializeTabTracking_tracker:
  "t \<in> set (tabs_query B (host w)) \<Longrightarrow>
   tabLastActive (initializeTabTracking B w) (tab_id t) = Some (date_now B (host w))"
  by (simp add: initializeTabTracking_def Let_def initialize_loop_tracker)

section \<open>Prefixes of a pass\<close>





text \<open>
  The rounding at work: ties go to the even significand, and from \<open>2^63\<close> on a double
  does not change when 1000 is added to it.
\<close>

lemma dbl_rounds_ties_to_even:
  "dbl 9007199254740993 = 9007199254740992 \<and> dbl 9007199254740995 = 9007199254740996 \<and>
   dbl (- 9007199254740994) = - 9007199254740994 \<and> dbl 18014398509481983 = 18014398509481984"
  by (simp add: dbl_def round53_def excess_bits.simps)

lemma js_add_absorbs_1000:
  "js_mul 10000000000000000 1000 = 10000000000000000000 \<and>
   js_add 10000000000000000000 1000 = 10000000000000000000"
  by (simp add: js_mul_def js_add_def dbl_def round53_def excess_bits.simps)






section \<open>The exclusion policy\<close>

text \<open>
  C4. \<open>shouldExclude\<close> is true exactly when one of the five conditions, taken in the
  source's order (active, discarded, excludePinned and pinned, excludeAudible and audible,
  a URL starting with about:, moz-extension: or chrome:), holds. In particular a tab with
  \<open>active = true\<close> is excluded whatever its other fields and the settings are, so is a
  tab with \<open>discarded = true\<close>, and a tab matching none of the five is not excluded.
\<close>

theorem shouldExclude_conditions:
  "shouldExclude s t =
     (active t \<or> discarded t \<or> (excludePinned s \<and> pinned t) \<or> (excludeAudible s \<and> audible t) \<or>
      (opt_startsWith (url t) ''about:'' \<or> opt_startsWith (url t) ''moz-extension:'' \<or>
       opt_startsWith (url t) ''chrome:''))
   \<and> shouldExclude s (t\<lparr>active := True\<rparr>)
   \<and> shouldExclude s (t\<lparr>discarded := True\<rparr>)
   \<and> \<not> shouldExclude s
         (t\<lparr>active := False, discarded := False, pinned := False, audible := False, url := None\<rparr>)"
  by (simp add: shouldExclude_def opt_startsWith_def)

text \<open>
  C3. The checks written out at the head of the scan's loop skip a tab exactly when
  \<open>shouldExclude\<close> is true of it, for every tab and every settings value.
\<close>

theorem scan_skip_iff_shouldExclude:
  "(scan_skip s t \<noteq> None) = shouldExclude s t"
  by (simp add: scan_skip_def shouldExclude_def)

section \<open>The scheduled scan\<close>

text \<open>
  C7. With \<open>settings.enabled\<close> false the scan returns 0 and the world is the one it
  started from: nothing was queried, no discard was called, nothing was logged and the
  tracker map is the same.
\<close>

theorem disabled_scan_no_effect:
  "\<not> enabled s \<Longrightarrow> checkAndDiscardInactiveTabs B s w = (0, w)"
  by (simp add: checkAndDiscardInactiveTabs_def)

theorem disabled_scan_no_effect_witness:
  "\<not> enabled (DEFAULT_SETTINGS\<lparr>enabled := False\<rparr>) \<and>
   checkAndDiscardInactiveTabs (ok_browser [mk_tab 1 False False] 100000)
     (DEFAULT_SETTINGS\<lparr>enabled := False\<rparr>) (world0 Map.empty) = (0, world0 Map.empty)"
  using disabled_scan_no_effect
    [of "DEFAULT_SETTINGS\<lparr>enabled := False\<rparr>" "ok_browser [mk_tab 1 False False] 100000"
        "world0 Map.empty"]
  by simp

text \<open>
  C1. When the scan reaches a tab that is past the exclusion checks and idle for longer
  than the timeout while the number of non-discarded tabs minus the count so far is at
  most \<open>minTabs\<close>, the loop is left by \<open>break\<close>: the pass ends in the state of
  that iteration whatever tabs follow, so no later tab is examined or discarded and the
  count stays as it was. Hence the count returned by a scan never exceeds
  \<open>max 0 (activeTabs.length - minTabs)\<close>.
\<close>

theorem scan_floor_stops_pass:
  "(scan_skip s t = None \<and>
    tm < js_sub now (resolve_lastActive now tm (tabLastActive w (tab_id t))) \<and>
    int n - c \<le> minTabs s \<longrightarrow>
      fst (scan_iter B s now tm n t (c, w)) = Break \<and>
      scan_loop B s now tm n (t # ts) (c, w) = scan_loop B s now tm n [t] (c, w) \<and>
      fst (scan_loop B s now tm n (t # ts) (c, w)) = c \<and>
      host (snd (scan_loop B s now tm n (t # ts) (c, w))) = host w \<and>
      discard_calls (events_since w (snd (scan_loop B s now tm n (t # ts) (c, w)))) = [])
   \<and> fst (checkAndDiscardInactiveTabs B s w)
       \<le> max 0 (int (length (filter (\<lambda>t. \<not> discarded t) (tabs_query B (host w)))) - minTabs s)"
proof (intro conjI impI)
  assume h: "scan_skip s t = None \<and>
    tm < js_sub now (resolve_lastActive now tm (tabLastActive w (tab_id t))) \<and>
    int n - c \<le> minTabs s"
  obtain ctl c1 w1 where it: "scan_iter B s now tm n t (c, w) = (ctl, c1, w1)"
    by (metis prod_cases3)
  from h have a: "scan_skip s t = None"
    "tm < js_sub now (resolve_lastActive now tm (tabLastActive w (tab_id t)))"
    "int n - c \<le> minTabs s" by simp_all
  note fl = scan_iter_floor[OF a it]
  have hd: "scan_loop B s now tm n (t # ts) (c, w) = (c1, w1)" for ts
    using it fl(1) by simp
  show "fst (scan_iter B s now tm n t (c, w)) = Break" using it fl(1) by simp
  show "scan_loop B s now tm n (t # ts) (c, w) = scan_loop B s now tm n [t] (c, w)"
    by (simp only: hd)
  show "fst (scan_loop B s now tm n (t # ts) (c, w)) = c" using fl(2) by (simp only: hd fst_conv)
  show "host (snd (scan_loop B s now tm n (t # ts) (c, w))) = host w"
    using fl(3) by (simp only: hd snd_conv)
  show "discard_calls (events_since w (snd (scan_loop B s now tm n (t # ts) (c, w)))) = []"
    using fl(4) by (simp only: hd snd_conv)
next
  show "fst (checkAndDiscardInactiveTabs B s w)
       \<le> max 0 (int (length (filter (\<lambda>t. \<not> discarded t) (tabs_query B (host w)))) - minTabs s)"
    by (rule checkAndDiscard_bound)
qed

theorem scan_floor_stops_pass_witness:
  "(scan_skip DEFAULT_SETTINGS (mk_tab 1 False False) = None \<and>
    (30000::int) < js_sub 100000 (resolve_lastActive 100000 30000
        (tabLastActive (world0 [1 \<mapsto> 60000, 2 \<mapsto> 60000]) (tab_id (mk_tab 1 False False)))) \<and>
    int 1 - 0 \<le> minTabs DEFAULT_SETTINGS) \<and>
   scan_loop (ok_browser [] 100000) DEFAULT_SETTINGS 100000 30000 1
      [mk_tab 1 False False, mk_tab 2 False False] (0, world0 [1 \<mapsto> 60000, 2 \<mapsto> 60000])
     = scan_loop (ok_browser [] 100000) DEFAULT_SETTINGS 100000 30000 1
      [mk_tab 1 False False] (0, world0 [1 \<mapsto> 60000, 2 \<mapsto> 60000]) \<and>
   fst (scan_loop (ok_browser [] 100000) DEFAULT_SETTINGS 100000 30000 1
      [mk_tab 1 False False, mk_tab 2 False False] (0, world0 [1 \<mapsto> 60000, 2 \<mapsto> 60000])) = 0"
proof -
  have h: "scan_skip DEFAULT_SETTINGS (mk_tab 1 False False) = None \<and>
    (30000::int) < js_sub 100000 (resolve_lastActive 100000 30000
        (tabLastActive (world0 [1 \<mapsto> 60000, 2 \<mapsto> 60000]) (tab_id (mk_tab 1 False False)))) \<and>
    int 1 - 0 \<le> minTabs DEFAULT_SETTINGS"
    by (simp add: scan_skip_def DEFAULT_SETTINGS_def mk_tab_def opt_startsWith_def
        startsWith_def resolve_lastActive_def world0_def js_sub_def dbl_exact)
  show ?thesis
    using h scan_floor_stops_pass
      [of DEFAULT_SETTINGS "mk_tab 1 False False" 30000 100000
          "world0 [1 \<mapsto> 60000, 2 \<mapsto> 60000]" 1 0 "ok_browser [] 100000"
          "[mk_tab 2 False False]"]
    by blast
qed

text \<open>
  C2 (Scenario A). Settings enabled, \<open>inactiveTimeout = 30\<close>, \<open>minTabs = 1\<close>; the host
  lists exactly four tabs, none discarded, exactly one of them active, the three others
  not pinned, not audible, not system pages and each with a tracked timestamp 40 seconds
  before now; the host accepts every discard. Then one scan discards the three idle tabs,
  in enumeration order, and returns 3.
\<close>

theorem scenario_A_three_evictions:
  assumes "enabled s" and "inactiveTimeout s = 30" and "minTabs s = 1"
    and "length (tabs_query B (host w)) = 4"
    and "\<forall>t \<in> set (tabs_query B (host w)). \<not> discarded t"
    and "length (filter (\<lambda>t. active t) (tabs_query B (host w))) = 1"
    and "\<forall>t \<in> set (tabs_query B (host w)). \<not> active t \<longrightarrow>
           \<not> pinned t \<and> \<not> audible t \<and>
           \<not> opt_startsWith (url t) ''about:'' \<and>
           \<not> opt_startsWith (url t) ''moz-extension:'' \<and>
           \<not> opt_startsWith (url t) ''chrome:'' \<and>
           tabLastActive w (tab_id t) = Some (date_now B (host w) - 40000)"
    and "\<forall>h i. fst (tabs_discard B h i)"
  shows "fst (checkAndDiscardInactiveTabs B s w) = 3 \<and>
         discard_calls (events_since w (snd (checkAndDiscardInactiveTabs B s w)))
           = map (\<lambda>t. (tab_id t, True)) (filter (\<lambda>t. \<not> active t) (tabs_query B (host w)))"
proof -
  let ?tabs = "tabs_query B (host w)"
  let ?now = "date_now B (host w)"
  let ?e0 = "[TabsQuery, ConsoleLog (Msg_Checking (length ?tabs)
       (length (filter (\<lambda>t. discarded t) ?tabs)) (length (filter (\<lambda>t. active t) ?tabs)))]"
  let ?w1 = "emit ?e0 w"
  obtain c' w' where r: "checkAndDiscardInactiveTabs B s w = (c', w')"
    by (cases "checkAndDiscardInactiveTabs B s w")
  have nact: "length (filter (\<lambda>t. \<not> discarded t) ?tabs) = 4"
    using assms(4,5) by simp
  have loop: "scan_loop B s ?now 30000 4 ?tabs (0, ?w1) = (c', w')"
    using r assms(1,2) nact
    by (simp add: checkAndDiscardInactiveTabs_def Let_def emit_def js_mul_def dbl_exact)
  have cand: "filter (\<lambda>t. scan_skip s t = None) ?tabs = filter (\<lambda>t. \<not> active t) ?tabs"
    using assms(5,7) by (intro filter_cong) (auto simp: scan_skip_def)
  have three: "length (filter (\<lambda>t. \<not> active t) ?tabs) = 3"
    using assms(4,6) sum_length_filter_compl[of "\<lambda>t. active t" ?tabs] by simp
  have idle: "\<forall>t \<in> set ?tabs. scan_skip s t = None \<longrightarrow>
      30000 < js_sub ?now (resolve_lastActive ?now 30000 (tabLastActive ?w1 (tab_id t)))"
  proof (intro ballI impI)
    fix t assume t: "t \<in> set ?tabs" and "scan_skip s t = None"
    then have "\<not> active t" by (auto simp: scan_skip_def split: if_splits)
    with t assms(7) have "tabLastActive w (tab_id t) = Some (?now - 40000)" by simp
    then show "30000 < js_sub ?now (resolve_lastActive ?now 30000 (tabLastActive ?w1 (tab_id t)))"
      by (simp add: emit_def resolve_lastActive_def js_sub_def js_add_def dbl_exact)
  qed
  have floor: "minTabs s \<le> int 4 - 0 - int (length (filter (\<lambda>t. scan_skip s t = None) ?tabs))"
    using assms(3) cand three by simp
  from scan_loop_all_evicted[OF assms(8) idle floor loop]
  have res: "c' = 3"
    "discard_calls (trace w') = discard_calls (trace ?w1) @
       map (\<lambda>t. (tab_id t, True)) (filter (\<lambda>t. \<not> active t) ?tabs)"
    using cand three by simp_all
  from scan_loop_effect[OF loop] obtain evs where evs: "trace w' = trace ?w1 @ evs" by blast
  then have tw: "trace w' = trace w @ (?e0 @ evs)" by (simp add: emit_def)
  have "discard_calls (trace w') = discard_calls (trace w) @ discard_calls (events_since w w')"
    by (rule calls_split[OF tw])
  moreover have "discard_calls (trace ?w1) = discard_calls (trace w)"
    by (simp add: emit_def discard_calls_append)
  ultimately have "discard_calls (events_since w w')
      = map (\<lambda>t. (tab_id t, True)) (filter (\<lambda>t. \<not> active t) ?tabs)"
    using res(2) by simp
  with res(1) show ?thesis by (simp add: r)
qed

theorem scenario_A_three_evictions_witness:
  "fst (checkAndDiscardInactiveTabs
      (ok_browser [mk_tab 1 True False, mk_tab 2 False False, mk_tab 3 False False,
                   mk_tab 4 False False] 100000)
      DEFAULT_SETTINGS (world0 [2 \<mapsto> 60000, 3 \<mapsto> 60000, 4 \<mapsto> 60000])) = 3"
proof -
  let ?B = "ok_browser [mk_tab 1 True False, mk_tab 2 False False, mk_tab 3 False False,
                   mk_tab 4 False False] 100000"
  let ?w = "world0 [2 \<mapsto> 60000, 3 \<mapsto> 60000, 4 \<mapsto> 60000]"
  have h1: "enabled DEFAULT_SETTINGS" and h2: "inactiveTimeout DEFAULT_SETTINGS = 30"
    and h3: "minTabs DEFAULT_SETTINGS = 1"
    by (simp_all add: DEFAULT_SETTINGS_def)
  have h4: "length (tabs_query ?B (host ?w)) = 4"
    and h5: "\<forall>t \<in> set (tabs_query ?B (host ?w)). \<not> discarded t"
    and h6: "length (filter (\<lambda>t. active t) (tabs_query ?B (host ?w))) = 1"
    by (simp_all add: ok_browser_def mk_tab_def)
  have h7: "\<forall>t \<in> set (tabs_query ?B (host ?w)). \<not> active t \<longrightarrow>
           \<not> pinned t \<and> \<not> audible t \<and>
           \<not> opt_startsWith (url t) ''about:'' \<and>
           \<not> opt_startsWith (url t) ''moz-extension:'' \<and>
           \<not> opt_startsWith (url t) ''chrome:'' \<and>
           tabLastActive ?w (tab_id t) = Some (date_now ?B (host ?w) - 40000)"
    by (simp add: ok_browser_def mk_tab_def world0_def opt_startsWith_def startsWith_def)
  have h8: "\<forall>h i. fst (tabs_discard ?B h i)"
    by (simp add: ok_browser_def)
  from scenario_A_three_evictions[OF h1 h2 h3 h4 h5 h6 h7 h8] show ?thesis by blast
qed







text \<open>
  C9 says that a scan run right after \<open>initializeTabTracking\<close>, at the same clock value
  and with a positive timeout, discards nothing and returns 0. At the clock value 0 the
  script does otherwise: both tabs are seeded with the timestamp 0, the scan's test
  \<open>!lastActive\<close> takes the stored 0 for a missing record, and the inactive tab is
  discarded; the scan returns 1.
\<close>

theorem reinit_scan_at_clock_zero:
  "0 < inactiveTimeout DEFAULT_SETTINGS \<and>
   fst (checkAndDiscardInactiveTabs
          (ok_browser [mk_tab 1 True False, mk_tab 2 False False] 0) DEFAULT_SETTINGS
          (initializeTabTracking (ok_browser [mk_tab 1 True False, mk_tab 2 False False] 0)
             (world0 Map.empty))) = 1 \<and>
   discard_calls (events_since
       (initializeTabTracking (ok_browser [mk_tab 1 True False, mk_tab 2 False False] 0)
             (world0 Map.empty))
       (snd (checkAndDiscardInactiveTabs
          (ok_browser [mk_tab 1 True False, mk_tab 2 False False] 0) DEFAULT_SETTINGS
          (initializeTabTracking (ok_browser [mk_tab 1 True False, mk_tab 2 False False] 0)
             (world0 Map.empty))))) = [(2, True)]"
  by (simp add: checkAndDiscardInactiveTabs_def initializeTabTracking_def ok_browser_def
      mk_tab_def DEFAULT_SETTINGS_def world0_def emit_def scan_iter_def scan_skip_def
      opt_startsWith_def startsWith_def untracked_def resolve_lastActive_def Let_def
      events_since_def js_add_def js_sub_def js_mul_def dbl_exact)

text \<open>
  At every other clock value the seeded timestamps are read back as they are, and the scan
  that follows on the same host state makes no discard call.
\<close>

lemma reinit_then_scan_evicts_nothing:
  assumes "date_now B (host w) \<noteq> 0" and "0 < inactiveTimeout s"
  shows "(\<forall>t \<in> set (tabs_query B (host w)).
            tabLastActive (initializeTabTracking B w) (tab_id t) = Some (date_now B (host w))) \<and>
         fst (checkAndDiscardInactiveTabs B s (initializeTabTracking B w)) = 0 \<and>
         discard_calls (events_since (initializeTabTracking B w)
            (snd (checkAndDiscardInactiveTabs B s (initializeTabTracking B w)))) = []"
proof -
  let ?wi = "initializeTabTracking B w"
  let ?tabs = "tabs_query B (host w)"
  let ?now = "date_now B (host w)"
  have seeded: "\<forall>t \<in> set ?tabs. tabLastActive ?wi (tab_id t) = Some ?now"
    by (simp add: initializeTabTracking_tracker)
  obtain c' w' where r: "checkAndDiscardInactiveTabs B s ?wi = (c', w')"
    by (cases "checkAndDiscardInactiveTabs B s ?wi")
  have "c' = 0 \<and> discard_calls (events_since ?wi w') = []"
  proof (cases "enabled s")
    case False
    with r show ?thesis
      by (simp add: checkAndDiscardInactiveTabs_def events_since_def)
  next
    case True
    let ?e0 = "[TabsQuery, ConsoleLog (Msg_Checking (length ?tabs)
       (length (filter (\<lambda>t. discarded t) ?tabs)) (length (filter (\<lambda>t. active t) ?tabs)))]"
    let ?w1 = "emit ?e0 ?wi"
    have loop: "scan_loop B s ?now (js_mul (inactiveTimeout s) 1000)
        (length (filter (\<lambda>t. \<not> discarded t) ?tabs)) ?tabs (0, ?w1) = (c', w')"
      using r True
      by (simp add: checkAndDiscardInactiveTabs_def Let_def emit_def initializeTabTracking_host)
    have seeded1: "\<forall>t \<in> set ?tabs. tabLastActive ?w1 (tab_id t) = Some ?now"
      using seeded by (simp add: emit_def)
    have tm: "0 \<le> js_mul (inactiveTimeout s) 1000"
      unfolding js_mul_def using assms(2) by (intro dbl_nonneg) simp
    from scan_loop_all_fresh[OF assms(1) tm seeded1 loop]
    have res: "c' = 0" "discard_calls (trace w') = discard_calls (trace ?w1)" by simp_all
    from scan_loop_effect[OF loop] obtain evs where "trace w' = trace ?w1 @ evs" by blast
    then have tw: "trace w' = trace ?wi @ (?e0 @ evs)" by (simp add: emit_def)
    have "discard_calls (trace ?w1) = discard_calls (trace ?wi)"
      by (simp add: emit_def discard_calls_append)
    with res(2) calls_split[OF tw] have "discard_calls (events_since ?wi w') = []" by simp
    with res(1) show ?thesis by simp
  qed
  with seeded show ?thesis by (simp add: r)
qed

section \<open>The manual trigger and failing discards\<close>

text \<open>
  C6. \<open>forceDiscardInactiveTabs\<close> calls discard on exactly the tabs for which
  \<open>shouldExclude\<close> is false, in enumeration order, whatever the tracker, the timeout and
  \<open>minTabs\<close> are, and returns the number of calls that succeeded. In particular
  (Scenario B) on five tabs of which two are pinned, with \<open>excludePinned\<close> set and the
  three others not excluded, exactly the three unpinned tabs are attempted.
\<close>

theorem forceDiscard_attempts_non_excluded:
  "attempted (events_since w (snd (forceDiscardInactiveTabs B s w)))
     = map tab_id (filter (\<lambda>t. \<not> shouldExclude s t) (tabs_query B (host w)))
   \<and> fst (forceDiscardInactiveTabs B s w)
     = succeeded (events_since w (snd (forceDiscardInactiveTabs B s w)))
   \<and> (length (tabs_query B (host w)) = 5 \<and> excludePinned s \<and>
      length (filter (\<lambda>t. pinned t) (tabs_query B (host w))) = 2 \<and>
      (\<forall>t \<in> set (tabs_query B (host w)). \<not> pinned t \<longrightarrow> \<not> shouldExclude s t) \<longrightarrow>
        attempted (events_since w (snd (forceDiscardInactiveTabs B s w)))
          = map tab_id (filter (\<lambda>t. \<not> pinned t) (tabs_query B (host w))) \<and>
        length (attempted (events_since w (snd (forceDiscardInactiveTabs B s w)))) = 3)"
proof -
  obtain c' w' where r: "forceDiscardInactiveTabs B s w = (c', w')"
    by (cases "forceDiscardInactiveTabs B s w")
  let ?tabs = "tabs_query B (host w)"
  note eff = forceDiscard_effect[OF r]
  have scen: "attempted (events_since w w') = map tab_id (filter (\<lambda>t. \<not> pinned t) ?tabs) \<and>
        length (attempted (events_since w w')) = 3"
    if h: "length ?tabs = 5 \<and> excludePinned s \<and> length (filter (\<lambda>t. pinned t) ?tabs) = 2 \<and>
      (\<forall>t \<in> set ?tabs. \<not> pinned t \<longrightarrow> \<not> shouldExclude s t)"
  proof -
    have "filter (\<lambda>t. \<not> shouldExclude s t) ?tabs = filter (\<lambda>t. \<not> pinned t) ?tabs"
      using h by (intro filter_cong) (auto dest: pinned_excluded)
    moreover have "length (filter (\<lambda>t. \<not> pinned t) ?tabs) = 3"
      using h sum_length_filter_compl[of "\<lambda>t. pinned t" ?tabs] by simp
    ultimately show ?thesis using eff(2) by simp
  qed
  show ?thesis
    unfolding r fst_conv snd_conv using eff scen by blast
qed

theorem forceDiscard_attempts_non_excluded_witness:
  "attempted (events_since (world0 Map.empty)
     (snd (forceDiscardInactiveTabs (ok_browser [mk_tab 1 False False, mk_tab 2 False True,
        mk_tab 3 False False, mk_tab 4 False True, mk_tab 5 False False] 100000)
        (DEFAULT_SETTINGS\<lparr>excludePinned := True\<rparr>) (world0 Map.empty)))) = [1, 3, 5]"
proof -
  let ?B = "ok_browser [mk_tab 1 False False, mk_tab 2 False True,
        mk_tab 3 False False, mk_tab 4 False True, mk_tab 5 False False] 100000"
  let ?s = "DEFAULT_SETTINGS\<lparr>excludePinned := True\<rparr>"
  let ?w = "world0 Map.empty :: unit world"
  have h: "length (tabs_query ?B (host ?w)) = 5 \<and> excludePinned ?s \<and>
    length (filter (\<lambda>t. pinned t) (tabs_query ?B (host ?w))) = 2 \<and>
    (\<forall>t \<in> set (tabs_query ?B (host ?w)). \<not> pinned t \<longrightarrow> \<not> shouldExclude ?s t)"
    by (simp add: ok_browser_def mk_tab_def DEFAULT_SETTINGS_def shouldExclude_def
        opt_startsWith_def startsWith_def)
  have "attempted (events_since ?w (snd (forceDiscardInactiveTabs ?B ?s ?w)))
          = map tab_id (filter (\<lambda>t. \<not> pinned t) (tabs_query ?B (host ?w)))"
    using h forceDiscard_attempts_non_excluded[of ?w ?B ?s] by blast
  also have "\<dots> = [1, 3, 5]"
    by (simp add: ok_browser_def mk_tab_def)
  finally show ?thesis .
qed

text \<open>
  C8. In the scan and in the forced run the returned count is the number of discard calls
  of that run that succeeded. A call the host rejects does not end the loop: the scan
  goes on with the next tab, the count unchanged, the rejected call followed by the
  \<open>console.error\<close> line; the forced run likewise.
\<close>

theorem discard_failure_not_fatal:
  "fst (checkAndDiscardInactiveTabs B s w)
     = succeeded (events_since w (snd (checkAndDiscardInactiveTabs B s w)))
   \<and> fst (forceDiscardInactiveTabs B s w)
     = succeeded (events_since w (snd (forceDiscardInactiveTabs B s w)))
   \<and> (scan_skip s t = None \<and>
      tm < js_sub now (resolve_lastActive now tm (tabLastActive w (tab_id t))) \<and>
      \<not> int n - c \<le> minTabs s \<and>
      \<not> fst (tabs_discard B (host w) (tab_id t)) \<longrightarrow>
        scan_loop B s now tm n (t # ts) (c, w)
          = scan_loop B s now tm n ts (c, snd (snd (scan_iter B s now tm n t (c, w)))) \<and>
        discard_calls (events_since w (snd (snd (scan_iter B s now tm n t (c, w)))))
          = [(tab_id t, False)] \<and>
        last (trace (snd (snd (scan_iter B s now tm n t (c, w)))))
          = ConsoleError (Msg_FailedDiscard (tab_id t)))
   \<and> (\<not> shouldExclude s t \<and> \<not> fst (tabs_discard B (host w) (tab_id t)) \<longrightarrow>
        force_loop B s (t # ts) (c, w)
          = force_loop B s ts
              (c, emit [TabsDiscard (tab_id t) False, ConsoleError Msg_ForceFailed]
                    (w\<lparr>host := snd (tabs_discard B (host w) (tab_id t))\<rparr>)))"
proof (intro conjI impI)
  show "fst (checkAndDiscardInactiveTabs B s w)
     = succeeded (events_since w (snd (checkAndDiscardInactiveTabs B s w)))"
    by (rule checkAndDiscard_effect) simp
  show "fst (forceDiscardInactiveTabs B s w)
     = succeeded (events_since w (snd (forceDiscardInactiveTabs B s w)))"
    by (rule forceDiscard_effect(1)) simp
next
  assume h: "scan_skip s t = None \<and>
      tm < js_sub now (resolve_lastActive now tm (tabLastActive w (tab_id t))) \<and>
      \<not> int n - c \<le> minTabs s \<and>
      \<not> fst (tabs_discard B (host w) (tab_id t))"
  obtain ctl c1 w1 where it: "scan_iter B s now tm n t (c, w) = (ctl, c1, w1)"
    by (metis prod_cases3)
  from h have a: "scan_skip s t = None"
    "tm < js_sub now (resolve_lastActive now tm (tabLastActive w (tab_id t)))"
    "\<not> int n - c \<le> minTabs s" and f: "\<not> fst (tabs_discard B (host w) (tab_id t))"
    by simp_all
  note cand = scan_iter_candidate[OF a it]
  have "ctl = Continue" "c1 = c" using cand(1,2) f by simp_all
  with it show "scan_loop B s now tm n (t # ts) (c, w)
          = scan_loop B s now tm n ts (c, snd (snd (scan_iter B s now tm n t (c, w))))"
    by simp
  show "discard_calls (events_since w (snd (snd (scan_iter B s now tm n t (c, w)))))
          = [(tab_id t, False)]"
    using cand(4) f by (simp add: it)
  show "last (trace (snd (snd (scan_iter B s now tm n t (c, w)))))
          = ConsoleError (Msg_FailedDiscard (tab_id t))"
    using scan_iter_failed_logged[OF a f it] by (simp add: it)
next
  assume "\<not> shouldExclude s t \<and> \<not> fst (tabs_discard B (host w) (tab_id t))"
  then show "force_loop B s (t # ts) (c, w)
          = force_loop B s ts
              (c, emit [TabsDiscard (tab_id t) False, ConsoleError Msg_ForceFailed]
                    (w\<lparr>host := snd (tabs_discard B (host w) (tab_id t))\<rparr>))"
    by (simp add: split_beta)
qed

theorem discard_failure_not_fatal_witness:
  "scan_loop (flaky_browser [] 100000) DEFAULT_SETTINGS 100000 30000 3
      [mk_tab 2 False False, mk_tab 3 False False] (0, world0 [2 \<mapsto> 60000, 3 \<mapsto> 60000])
    = scan_loop (flaky_browser [] 100000) DEFAULT_SETTINGS 100000 30000 3
      [mk_tab 3 False False]
      (0, snd (snd (scan_iter (flaky_browser [] 100000) DEFAULT_SETTINGS 100000 30000 3
          (mk_tab 2 False False) (0, world0 [2 \<mapsto> 60000, 3 \<mapsto> 60000])))) \<and>
   force_loop (flaky_browser [] 100000) DEFAULT_SETTINGS
      [mk_tab 2 False False, mk_tab 3 False False] (0, world0 [2 \<mapsto> 60000, 3 \<mapsto> 60000])
    = force_loop (flaky_browser [] 100000) DEFAULT_SETTINGS [mk_tab 3 False False]
      (0, emit [TabsDiscard (tab_id (mk_tab 2 False False)) False, ConsoleError Msg_ForceFailed]
            ((world0 [2 \<mapsto> 60000, 3 \<mapsto> 60000])
               \<lparr>host := snd (tabs_discard (flaky_browser [] 100000)
                    (host (world0 [2 \<mapsto> 60000, 3 \<mapsto> 60000])) (tab_id (mk_tab 2 False False)))\<rparr>))"
proof -
  let ?B = "flaky_browser [] 100000"
  let ?t = "mk_tab 2 False False"
  let ?w = "world0 [2 \<mapsto> 60000, 3 \<mapsto> 60000] :: unit world"
  have h1: "scan_skip DEFAULT_SETTINGS ?t = None \<and>
      30000 < js_sub 100000 (resolve_lastActive 100000 30000 (tabLastActive ?w (tab_id ?t))) \<and>
      \<not> int 3 - 0 \<le> minTabs DEFAULT_SETTINGS \<and>
      \<not> fst (tabs_discard ?B (host ?w) (tab_id ?t))"
    by (simp add: scan_skip_def DEFAULT_SETTINGS_def mk_tab_def opt_startsWith_def
        startsWith_def resolve_lastActive_def world0_def flaky_browser_def js_sub_def
        dbl_exact)
  have h2: "\<not> shouldExclude DEFAULT_SETTINGS ?t \<and> \<not> fst (tabs_discard ?B (host ?w) (tab_id ?t))"
    by (simp add: shouldExclude_def DEFAULT_SETTINGS_def mk_tab_def opt_startsWith_def
        startsWith_def flaky_browser_def)
  from discard_failure_not_fatal
    [of ?B DEFAULT_SETTINGS ?w ?t 30000 100000 3 0 "[mk_tab 3 False False]"] h1 h2
  show ?thesis by blast
qed

end
